theory Spec2Isabelle
  imports Main "HOL-Library.Sublist"
begin

section \<open>Output hash formats (webpack/utils/helpers.ts)\<close>

text \<open>
  The interface \<open>HashFormat\<close> of the source: four strings that are spliced into
  the bundler's file-name templates.
\<close>

record HashFormat =
  chunk :: string
  "extract" :: string
  "file" :: string
  script :: string

text \<open>
  The template literals of the source splice the number \<open>length\<close> into the format
  strings. For the non-negative integers the option stands for, JavaScript renders a
  number as its decimal digits.
\<close>

fun decimal :: "nat \<Rightarrow> string" where
  "decimal n =
     (if n < 10 then [''0123456789'' ! n]
      else decimal (n div 10) @ [''0123456789'' ! (n mod 10)])"

text \<open>
  \<open>hashFormats\<close> is an object literal: its own properties, in the order of the source.
\<close>

definition hashFormats :: "nat \<Rightarrow> (string \<times> HashFormat) list" where
  "hashFormats len =
     [(''none'', \<lparr>chunk = '''', extract = '''', file = '''', script = ''''\<rparr>),
      (''media'', \<lparr>chunk = '''', extract = '''',
                  file = ''.[hash:'' @ decimal len @ '']'', script = ''''\<rparr>),
      (''bundles'', \<lparr>chunk = ''.[chunkhash:'' @ decimal len @ '']'',
                    extract = ''.[contenthash:'' @ decimal len @ '']'',
                    file = '''',
                    script = ''.[hash:'' @ decimal len @ '']''\<rparr>),
      (''all'', \<lparr>chunk = ''.[chunkhash:'' @ decimal len @ '']'',
                extract = ''.[contenthash:'' @ decimal len @ '']'',
                file = ''.[hash:'' @ decimal len @ '']'',
                script = ''.[hash:'' @ decimal len @ '']''\<rparr>)]"

text \<open>
  An object literal inherits from \<open>Object.prototype\<close>, and a property read
  \<open>obj[name]\<close> walks the prototype chain: a name that is not an own property but is a
  member of \<open>Object.prototype\<close> reads that member (a function, or for \<open>__proto__\<close>
  the prototype object itself), and only the remaining names read \<open>undefined\<close>.
\<close>

definition object_prototype_names :: "string list" where
  "object_prototype_names =
     [''constructor'', ''__defineGetter__'', ''__defineSetter__'', ''hasOwnProperty'',
      ''__lookupGetter__'', ''__lookupSetter__'', ''isPrototypeOf'',
      ''propertyIsEnumerable'', ''toString'', ''valueOf'', ''__proto__'',
      ''toLocaleString'']"

datatype 'a property = Own 'a | ObjectPrototype string | Undefined

definition get_property :: "(string \<times> 'a) list \<Rightarrow> string \<Rightarrow> 'a property" where
  "get_property obj name =
     (case map_of obj name of
        Some v \<Rightarrow> Own v
      | None \<Rightarrow> if name \<in> set object_prototype_names then ObjectPrototype name
                else Undefined)"

text \<open>
  \<open>getOutputHashFormat(option, length = 20)\<close>: the default applies when the second
  argument is absent. \<open>a || b\<close> yields \<open>a\<close> unless it is falsy; objects and functions
  are truthy, \<open>undefined\<close> is falsy.
\<close>

definition getOutputHashFormat :: "string \<Rightarrow> nat option \<Rightarrow> HashFormat property" where
  "getOutputHashFormat option len =
     (let length = (case len of None \<Rightarrow> 20 | Some n \<Rightarrow> n);
          formats = hashFormats length
      in case get_property formats option of
           Undefined \<Rightarrow> get_property formats ''none''
         | v \<Rightarrow> v)"

section \<open>The resource loader (resource_loader.ts)\<close>

subsection \<open>Data\<close>

text \<open>
  A webpack \<open>Source\<close> object answers \<open>source()\<close> with its text. \<open>RawSource\<close> is the
  class the loader itself constructs around an evaluated resource; \<open>Generated\<close> stands
  for every source object the bundler produced.
\<close>

datatype source = Generated string | RawSource string

fun source_text :: "source \<Rightarrow> string" where
  "source_text (Generated s) = s"
| "source_text (RawSource s) = s"

text \<open>
  The fields of a webpack compilation that the loader reads or writes. \<open>assets\<close> is a
  plain object from asset name to source; warnings and errors are kept as their
  messages.
\<close>

record compilation =
  "context" :: string
  fullHash :: string
  assets :: "(string \<times> source) list"
  fileDependencies :: "string list"
  warnings :: "string list"
  errors :: "string list"

record CompilationOutput =
  outputName :: string
  source :: string

text \<open>
  The private fields \<open>_parentCompilation\<close>, \<open>_context\<close>, \<open>_fileDependencies\<close>,
  \<open>_reverseDependencies\<close>, \<open>_cachedSources\<close> and \<open>_cachedEvaluatedSources\<close> of the
  class carry the prefix \<open>priv_\<close> here. A JavaScript \<open>Map\<close> is a partial function; a
  \<open>Set\<close> of strings is a duplicate-free list in insertion order.
\<close>

record WebpackResourceLoader =
  priv_parentCompilation :: "compilation option"
  priv_context :: string
  priv_fileDependencies :: "string \<rightharpoonup> string list"
  priv_reverseDependencies :: "string \<rightharpoonup> string list"
  priv_cachedSources :: "string \<rightharpoonup> string"
  priv_cachedEvaluatedSources :: "string \<rightharpoonup> source"
  changedFiles :: "string list option"

definition new_WebpackResourceLoader :: WebpackResourceLoader where
  "new_WebpackResourceLoader =
     \<lparr>priv_parentCompilation = None, priv_context = '''',
      priv_fileDependencies = Map.empty, priv_reverseDependencies = Map.empty,
      priv_cachedSources = Map.empty, priv_cachedEvaluatedSources = Map.empty,
      changedFiles = None\<rparr>"

text \<open>\<open>Set.prototype.add\<close> and \<open>new Set(iterable)\<close>.\<close>

definition set_add :: "'a \<Rightarrow> 'a list \<Rightarrow> 'a list" where
  "set_add x xs = (if x \<in> set xs then xs else xs @ [x])"

definition new_Set :: "'a list \<Rightarrow> 'a list" where
  "new_Set xs = fold set_add xs []"

text \<open>Reading and writing a property of the plain object \<open>assets\<close>.\<close>

definition assets_get :: "(string \<times> source) list \<Rightarrow> string \<Rightarrow> source option" where
  "assets_get obj name = map_of obj name"

fun assets_set :: "(string \<times> source) list \<Rightarrow> string \<Rightarrow> source \<Rightarrow> (string \<times> source) list" where
  "assets_set [] name v = [(name, v)]"
| "assets_set ((k, w) # obj) name v =
     (if k = name then (k, v) # obj else (k, w) # assets_set obj name v)"

subsection \<open>The small methods\<close>

definition update :: "compilation \<Rightarrow> string list option \<Rightarrow> WebpackResourceLoader \<Rightarrow> WebpackResourceLoader" where
  "update parent changed l =
     l\<lparr>priv_parentCompilation := Some parent, priv_context := context parent,
       changedFiles := changed\<rparr>"

definition getResourceDependencies :: "WebpackResourceLoader \<Rightarrow> string \<Rightarrow> string list" where
  "getResourceDependencies l filePath =
     (case priv_fileDependencies l filePath of Some deps \<Rightarrow> deps | None \<Rightarrow> [])"

definition getAffectedResources :: "WebpackResourceLoader \<Rightarrow> string \<Rightarrow> string list" where
  "getAffectedResources l f =
     (case priv_reverseDependencies l f of Some rs \<Rightarrow> rs | None \<Rightarrow> [])"

definition setAffectedResources :: "string \<Rightarrow> string list \<Rightarrow> WebpackResourceLoader \<Rightarrow> WebpackResourceLoader" where
  "setAffectedResources f resources l =
     l\<lparr>priv_reverseDependencies := (priv_reverseDependencies l)(f \<mapsto> new_Set resources)\<rparr>"

text \<open>
  \<open>getModifiedResourceFiles\<close>: the loop over \<open>changedFiles\<close> with the inner
  \<open>forEach\<close> adding to \<open>modifiedResources\<close>.
\<close>

definition getModifiedResourceFiles :: "WebpackResourceLoader \<Rightarrow> string list" where
  "getModifiedResourceFiles l =
     (case changedFiles l of
        None \<Rightarrow> []
      | Some changed \<Rightarrow>
          fold (\<lambda>changedFile modifiedResources.
                  fold set_add (getAffectedResources l changedFile) modifiedResources)
               changed [])"

subsection \<open>The collaborators of \<open>_compile\<close>\<close>

text \<open>
  \<open>_compile\<close> hands the resource to a child compiler of the bundler and evaluates the
  bundle it gets back in a fresh \<open>vm\<close> context. Both are outside this class; the model
  takes what they answer as parameters.

  \<^item> The child compiler either fails with an error before its compilation is sealed, or
    reaches the \<open>additionalAssets\<close> hook with a compilation whose hash, assets and
    dependencies are set. When the hook calls back without an error that compilation,
    as the hook left it, is what \<open>compile\<close> calls back with; when the hook calls back
    with an error, \<open>compile\<close> calls back with that error.
  \<^item> \<open>vm.runInNewContext\<close> either throws or leaves some value in \<open>context.resource\<close>.
  \<^item> \<open>normalizePath\<close> (ivy/paths) is a function from paths to paths.
\<close>

datatype child_run = Fails string | Seals compilation

datatype resource_export = ExportsString string | ExportsDefault string | ExportsOther

datatype vm_run = Throws string | Leaves resource_export

record collaborators =
  childCompiler :: "string \<Rightarrow> string \<Rightarrow> child_run"
  runInNewContext :: "string \<Rightarrow> string \<Rightarrow> vm_run"
  normalizePath :: "string \<Rightarrow> string"

text \<open>
  What a promise is rejected with: an \<open>Error\<close> object constructed by the loader, a plain
  string passed to \<open>Promise.reject\<close>, the error of a collaborator, or the
  \<open>TypeError\<close> of calling a method of \<open>undefined\<close>.
\<close>

datatype reason = Error string | Text string | Foreign string | TypeError

text \<open>The calls made to the collaborators, in order.\<close>

datatype call = CreateChildCompiler string string | RunInNewContext string string

subsection \<open>The messages of the rejections\<close>

definition no_parent_message :: string where
  "no_parent_message = ''WebpackResourceLoader cannot be used without parentCompilation''"

definition js_or_ts_message :: "string \<Rightarrow> string" where
  "js_or_ts_message filePath =
     ''Cannot use a JavaScript or TypeScript file ('' @ filePath
       @ '') in a component's styleUrls or templateUrl.''"

definition no_string_message :: "string \<Rightarrow> string" where
  "no_string_message name =
     ''The loader '' @ [CHR 0x22] @ name @ [CHR 0x22] @ '' didn't return a string.''"

subsection \<open>\<open>_evaluate\<close>\<close>

definition evaluate :: "collaborators \<Rightarrow> CompilationOutput \<Rightarrow> reason + string" where
  "evaluate env out =
     (case runInNewContext env (source out) (outputName out) of
        Throws e \<Rightarrow> Inl (Foreign e)
      | Leaves (ExportsString s) \<Rightarrow> Inr s
      | Leaves (ExportsDefault s) \<Rightarrow> Inr s
      | Leaves ExportsOther \<Rightarrow>
          Inl (Error (no_string_message (outputName out))))"

subsection \<open>The \<open>additionalAssets\<close> hook of the child compilation\<close>

text \<open>
  The callback tapped in \<open>_compile\<close>. It answers with the error it calls back with, if
  any, the child compilation and the loader as it leaves them, and the calls it made.
\<close>

definition additionalAssets ::
  "collaborators \<Rightarrow> string \<Rightarrow> compilation \<Rightarrow> WebpackResourceLoader \<Rightarrow>
     reason option \<times> compilation \<times> WebpackResourceLoader \<times> call list" where
  "additionalAssets env filePath c l =
     (case priv_cachedEvaluatedSources l (fullHash c) of
        Some cachedEvaluatedSource \<Rightarrow>
          (None, c\<lparr>assets := assets_set (assets c) filePath cachedEvaluatedSource\<rparr>, l, [])
      | None \<Rightarrow>
          (case assets_get (assets c) filePath of
             Some asset \<Rightarrow>
               (case evaluate env \<lparr>outputName = filePath, source = source_text asset\<rparr> of
                  Inr output \<Rightarrow>
                    (let evaluatedSource = RawSource output
                     in (None,
                         c\<lparr>assets := assets_set (assets c) filePath evaluatedSource\<rparr>,
                         l\<lparr>priv_cachedEvaluatedSources :=
                             (priv_cachedEvaluatedSources l)(fullHash c \<mapsto> evaluatedSource)\<rparr>,
                         [RunInNewContext (source_text asset) filePath]))
                | Inl err \<Rightarrow>
                    (Some err, c, l, [RunInNewContext (source_text asset) filePath]))
           | None \<Rightarrow> (None, c, l, [])))"

subsection \<open>\<open>_compile\<close> and \<open>get\<close>\<close>

text \<open>The sanity check \<open>filePath.match(/\.[jt]s$/)\<close>: the path ends in \<open>.js\<close> or \<open>.ts\<close>.\<close>

definition matches_js_or_ts :: "string \<Rightarrow> bool" where
  "matches_js_or_ts filePath =
     (case rev filePath of
        c3 # c2 # c1 # _ \<Rightarrow>
          c1 = CHR ''.'' \<and> (c2 = CHR ''j'' \<or> c2 = CHR ''t'') \<and> c3 = CHR ''s''
      | _ \<Rightarrow> False)"

text \<open>
  The loop over \<open>Object.keys(childCompilation.assets)\<close>. The test
  \<open>parent.assets[assetName] == undefined\<close> reads a property of a plain object, so a
  name inherited from \<open>Object.prototype\<close> counts as defined.
\<close>

definition propagate_asset ::
  "string \<Rightarrow> (string \<times> source) list \<Rightarrow> string \<Rightarrow> (string \<times> source) list \<Rightarrow>
     (string \<times> source) list" where
  "propagate_asset filePath childAssets assetName parentAssets =
     (if assetName \<noteq> filePath \<and> assetName \<noteq> filePath @ ''.map''
         \<and> get_property parentAssets assetName = Undefined
      then (case assets_get childAssets assetName of
              Some v \<Rightarrow> assets_set parentAssets assetName v
            | None \<Rightarrow> parentAssets)
      else parentAssets)"

definition propagate_assets ::
  "string \<Rightarrow> (string \<times> source) list \<Rightarrow> (string \<times> source) list \<Rightarrow> (string \<times> source) list" where
  "propagate_assets filePath childAssets parentAssets =
     fold (propagate_asset filePath childAssets) (map fst childAssets) parentAssets"

text \<open>The loop that records \<open>filePath\<close> under every file the resource depends on.\<close>

definition add_reverse ::
  "collaborators \<Rightarrow> string \<Rightarrow> string \<Rightarrow> (string \<rightharpoonup> string list) \<Rightarrow> (string \<rightharpoonup> string list)" where
  "add_reverse env filePath dep rd =
     (let resolvedFile = normalizePath env dep
      in case rd resolvedFile of
           Some entry \<Rightarrow> rd(resolvedFile \<mapsto> set_add filePath entry)
         | None \<Rightarrow> rd(resolvedFile \<mapsto> new_Set [filePath]))"

text \<open>
  The tail of \<open>_compile\<close>: the answer from \<open>_cachedSources\<close> when a truthy
  (non-empty) string is cached under the hash of the child compilation, and otherwise
  from the asset of the child compilation, whose text is then cached. \<open>source()\<close> of
  a missing asset is a \<open>TypeError\<close>.
\<close>

definition answer_from_asset ::
  "string \<Rightarrow> compilation \<Rightarrow> WebpackResourceLoader \<Rightarrow>
     (reason + CompilationOutput) \<times> WebpackResourceLoader" where
  "answer_from_asset filePath childCompilation l =
     (case assets_get (assets childCompilation) filePath of
        None \<Rightarrow> (Inl TypeError, l)
      | Some asset \<Rightarrow>
          (Inr \<lparr>outputName = filePath, source = source_text asset\<rparr>,
           l\<lparr>priv_cachedSources :=
               (priv_cachedSources l)(fullHash childCompilation \<mapsto> source_text asset)\<rparr>))"

definition cached_or_asset ::
  "string \<Rightarrow> compilation \<Rightarrow> WebpackResourceLoader \<Rightarrow>
     (reason + CompilationOutput) \<times> WebpackResourceLoader" where
  "cached_or_asset filePath childCompilation l =
     (case priv_cachedSources l (fullHash childCompilation) of
        Some maybeSource \<Rightarrow>
          if maybeSource \<noteq> []
          then (Inr \<lparr>outputName = filePath, source = maybeSource\<rparr>, l)
          else answer_from_asset filePath childCompilation l
      | None \<Rightarrow> answer_from_asset filePath childCompilation l)"

text \<open>
  What \<open>_compile\<close> does once the child compilation has come back: warnings and errors
  are pushed to the parent, new assets are propagated, the dependencies are saved.
\<close>

definition absorb_child ::
  "collaborators \<Rightarrow> string \<Rightarrow> compilation \<Rightarrow> compilation \<Rightarrow> WebpackResourceLoader \<Rightarrow>
     WebpackResourceLoader" where
  "absorb_child env filePath parent childCompilation l =
     (let parent1 =
            (if warnings childCompilation \<noteq> []
             then parent\<lparr>warnings := warnings parent @ warnings childCompilation\<rparr>
             else parent);
          parent2 =
            (if errors childCompilation \<noteq> []
             then parent1\<lparr>errors := errors parent1 @ errors childCompilation\<rparr>
             else parent1);
          parent3 =
            parent2\<lparr>assets :=
              propagate_assets filePath (assets childCompilation) (assets parent2)\<rparr>
      in l\<lparr>priv_parentCompilation := Some parent3,
           priv_fileDependencies :=
             (priv_fileDependencies l)
               (filePath \<mapsto> new_Set (fileDependencies childCompilation)),
           priv_reverseDependencies :=
             fold (add_reverse env filePath) (fileDependencies childCompilation)
                  (priv_reverseDependencies l)\<rparr>)"

text \<open>
  \<open>_compile\<close> answers with the settled promise (\<open>Inl\<close> a rejection), the loader as it
  is left, and the calls made to the collaborators.
\<close>

definition compile ::
  "collaborators \<Rightarrow> string \<Rightarrow> WebpackResourceLoader \<Rightarrow>
     (reason + CompilationOutput) \<times> WebpackResourceLoader \<times> call list" where
  "compile env filePath l =
     (case priv_parentCompilation l of
        None \<Rightarrow>
          (Inl (Error no_parent_message), l, [])
      | Some parent \<Rightarrow>
          if matches_js_or_ts filePath then
            (Inl (Text (js_or_ts_message filePath)), l, [])
          else
            (case childCompiler env (priv_context l) filePath of
               Fails err \<Rightarrow>
                 (Inl (Foreign err), l, [CreateChildCompiler (priv_context l) filePath])
             | Seals sealed \<Rightarrow>
                 (case additionalAssets env filePath sealed l of
                    (Some err, _, l1, calls) \<Rightarrow>
                      (Inl err, l1, CreateChildCompiler (priv_context l) filePath # calls)
                  | (None, childCompilation, l1, calls) \<Rightarrow>
                      (case cached_or_asset filePath childCompilation
                              (absorb_child env filePath parent childCompilation l1) of
                         (answer, l2) \<Rightarrow>
                           (answer, l2,
                            CreateChildCompiler (priv_context l) filePath # calls)))))"




subsection \<open>The two caches\<close>

text \<open>
  Every string cached in \<open>_cachedSources\<close> is the text of the evaluated source cached
  under the same hash, and every evaluated source is a \<open>RawSource\<close>.
\<close>

definition caches_consistent :: "WebpackResourceLoader \<Rightarrow> bool" where
  "caches_consistent l =
     (\<forall>h. (\<forall>s. priv_cachedSources l h = Some s \<longrightarrow>
                priv_cachedEvaluatedSources l h = Some (RawSource s)) \<and>
          (\<forall>ev. priv_cachedEvaluatedSources l h = Some ev \<longrightarrow>
                ev = RawSource (source_text ev)))"

subsection \<open>A small build, for the closed instances of the theorems\<close>

text \<open>
  A parent compilation with one asset, and the child compilation of the stylesheet
  \<open>/app/a.css\<close>: its bundle, a sourcemap, an image it refers to, and an asset whose
  name the parent already uses. The stylesheet imports \<open>/app/b.css\<close>.
\<close>

definition example_parent :: compilation where
  "example_parent =
     \<lparr>context = ''/app'', fullHash = ''p1'',
      assets = [(''main.js'', Generated ''main'')],
      fileDependencies = [], warnings = [], errors = []\<rparr>"

definition example_child :: compilation where
  "example_child =
     \<lparr>context = ''/app'', fullHash = ''h1'',
      assets = [(''/app/a.css'', Generated ''bundle A''),
                (''/app/a.css.map'', Generated ''map''),
                (''logo.png'', Generated ''png''),
                (''main.js'', Generated ''clash'')],
      fileDependencies = [''/app/a.css'', ''/app/b.css''],
      warnings = [''deprecated''], errors = []\<rparr>"

definition example_env :: collaborators where
  "example_env =
     \<lparr>childCompiler =
        (\<lambda>ctx filePath. if filePath = ''/app/a.css'' then Seals example_child
                        else Fails ''missing''),
      runInNewContext = (\<lambda>code name. Leaves (ExportsString (''text of '' @ code))),
      normalizePath = (\<lambda>p. p)\<rparr>"

definition example_loader :: WebpackResourceLoader where
  "example_loader = update example_parent None new_WebpackResourceLoader"

text \<open>
  The loader after the stylesheet has been compiled once, and two later builds of the
  same stylesheet. In the first the parent compilation is a new one with another hash,
  the child compilation has the hash it had before, and the \<open>vm\<close> would throw if it
  were asked to evaluate anything. In the second the parent compilation is the one of
  the first build, and the child compilation has another hash and another bundle.
\<close>

definition example_loader1 :: WebpackResourceLoader where
  "example_loader1 = fst (snd (compile example_env ''/app/a.css'' example_loader))"

definition example_parent2 :: compilation where
  "example_parent2 =
     \<lparr>context = ''/app'', fullHash = ''p2'',
      assets = [], fileDependencies = [], warnings = [], errors = []\<rparr>"

definition example_child2 :: compilation where
  "example_child2 =
     \<lparr>context = ''/app'', fullHash = ''h1'',
      assets = [(''/app/a.css'', Generated ''bundle A'')],
      fileDependencies = [''/app/a.css'', ''/app/b.css''],
      warnings = [], errors = []\<rparr>"

definition example_env2 :: collaborators where
  "example_env2 =
     \<lparr>childCompiler = (\<lambda>ctx filePath. Seals example_child2),
      runInNewContext = (\<lambda>code name. Throws ''evaluated again''),
      normalizePath = (\<lambda>p. p)\<rparr>"

definition example_loader2 :: WebpackResourceLoader where
  "example_loader2 = update example_parent2 (Some [''/app/main.ts'']) example_loader1"

definition example_child3 :: compilation where
  "example_child3 =
     \<lparr>context = ''/app'', fullHash = ''h2'',
      assets = [(''/app/a.css'', Generated ''bundle B'')],
      fileDependencies = [''/app/a.css''],
      warnings = [], errors = []\<rparr>"

definition example_env3 :: collaborators where
  "example_env3 =
     \<lparr>childCompiler = (\<lambda>ctx filePath. Seals example_child3),
      runInNewContext = (\<lambda>code name. Leaves (ExportsString (''text of '' @ code))),
      normalizePath = (\<lambda>p. p)\<rparr>"




section \<open>The source file cache (ivy/cache.ts)\<close>

text \<open>
  Modelled from the spec: the class \<open>SourceFileCache\<close> and its method \<open>invalidate\<close>;
  ivy/cache.ts is not among the sources, only the call
  \<open>cache.invalidate(compiler.fileTimestamps, this.buildTimestamp)\<close> in the plugin is.
  The spec has the cache as a mapping from normalized file path to the cached parsed
  file, whose entry is removed when the timestamp reported for the file exceeds the
  last build timestamp, together with the entries transitively reachable through the
  reverse resource-dependency map; the evicted files are the changed files. The cache
  is a list of entries with distinct paths, the reverse dependency map a list from a
  file to the files affected by it, and the map is an argument of the model.
\<close>

definition affected_by :: "(string \<times> string list) list \<Rightarrow> string \<Rightarrow> string list" where
  "affected_by reverse f = (case map_of reverse f of Some rs \<Rightarrow> rs | None \<Rightarrow> [])"

definition resources_of :: "(string \<times> string list) list \<Rightarrow> string set" where
  "resources_of reverse = (\<Union>entry\<in>set reverse. set (snd entry))"

definition unseen :: "(string \<times> string list) list \<times> string list \<times> string list \<Rightarrow> nat" where
  "unseen a = (case a of (reverse, todo, seen) \<Rightarrow>
                card ((set todo \<union> resources_of reverse) - set seen))"

text \<open>
  The files reachable from a work list through the reverse map, collected in the order
  they are first met.
\<close>

function reachable_from ::
  "(string \<times> string list) list \<Rightarrow> string list \<Rightarrow> string list \<Rightarrow> string list" where
  "reachable_from reverse [] seen = seen"
| "reachable_from reverse (f # todo) seen =
     (if f \<in> set seen then reachable_from reverse todo seen
      else reachable_from reverse (affected_by reverse f @ todo) (seen @ [f]))"
  by pat_completeness auto

termination
proof (relation "unseen <*mlex*> measure (\<lambda>(reverse, todo, seen). length todo)")
  show "wf (unseen <*mlex*> measure (\<lambda>(reverse, todo, seen). length todo))"
    by (simp add: wf_mlex)
next
  fix reverse :: "(string \<times> string list) list" and f :: string
    and todo seen :: "string list"
  assume "f \<in> set seen"
  then have "(set todo \<union> resources_of reverse) - set seen
      = (set (f # todo) \<union> resources_of reverse) - set seen" by auto
  then show "((reverse, todo, seen), (reverse, f # todo, seen))
      \<in> unseen <*mlex*> measure (\<lambda>(reverse, todo, seen). length todo)"
    by (simp add: mlex_iff unseen_def)
next
  fix reverse :: "(string \<times> string list) list" and f :: string
    and todo seen :: "string list"
  assume new: "f \<notin> set seen"
  let ?before = "(set (f # todo) \<union> resources_of reverse) - set seen"
  let ?after = "(set (affected_by reverse f @ todo) \<union> resources_of reverse) - set (seen @ [f])"
  have "set (affected_by reverse f) \<subseteq> resources_of reverse"
  proof
    fix r assume "r \<in> set (affected_by reverse f)"
    then obtain rs where "map_of reverse f = Some rs" "r \<in> set rs"
      by (cases "map_of reverse f") (auto simp: affected_by_def)
    then have "(f, rs) \<in> set reverse" "r \<in> set (snd (f, rs))"
      by (auto dest: map_of_SomeD)
    then show "r \<in> resources_of reverse" unfolding resources_of_def by blast
  qed
  then have "?after \<subseteq> ?before - {f}" by auto
  moreover have "f \<in> ?before" using new by simp
  ultimately have "?after \<subset> ?before" by auto
  moreover have "finite ?before" by (simp add: resources_of_def)
  ultimately have "card ?after < card ?before" by (rule psubset_card_mono[rotated])
  then show "((reverse, affected_by reverse f @ todo, seen @ [f]), (reverse, f # todo, seen))
      \<in> unseen <*mlex*> measure (\<lambda>(reverse, todo, seen). length todo)"
    by (simp add: mlex_iff unseen_def)
qed

text \<open>The cached files whose reported timestamp exceeds the last build timestamp.\<close>

definition stale_files :: "(string \<times> 'e) list \<Rightarrow> (string \<rightharpoonup> nat) \<Rightarrow> nat \<Rightarrow> string list" where
  "stale_files cache timestamps lastBuild =
     filter (\<lambda>f. case timestamps f of Some t \<Rightarrow> lastBuild < t | None \<Rightarrow> False)
            (map fst cache)"

definition SourceFileCache_invalidate ::
  "(string \<times> 'e) list \<Rightarrow> (string \<rightharpoonup> nat) \<Rightarrow> nat \<Rightarrow> (string \<times> string list) list \<Rightarrow>
     (string \<times> 'e) list \<times> string list" where
  "SourceFileCache_invalidate cache timestamps lastBuild reverse =
     (let evicted = reachable_from reverse (stale_files cache timestamps lastBuild) []
      in (filter (\<lambda>entry. fst entry \<notin> set evicted) cache, evicted))"

text \<open>The reverse map as a relation: a file and a file affected by it.\<close>

definition affects :: "(string \<times> string list) list \<Rightarrow> (string \<times> string) set" where
  "affects reverse = {(f, r). r \<in> set (affected_by reverse f)}"

text \<open>
  A cache of three files, of which the stylesheet has changed since the last build at
  time 10, and the component is affected by the stylesheet.
\<close>

definition example_cache :: "(string \<times> string) list" where
  "example_cache =
     [(''/app/a.css'', ''parsed a.css''), (''/app/a.component.ts'', ''parsed a.component.ts''),
      (''/app/main.ts'', ''parsed main.ts'')]"

definition example_timestamps :: "string \<rightharpoonup> nat" where
  "example_timestamps = [''/app/a.css'' \<mapsto> 11, ''/app/main.ts'' \<mapsto> 9]"

definition example_reverse :: "(string \<times> string list) list" where
  "example_reverse = [(''/app/a.css'', [''/app/a.component.ts''])]"

section \<open>The compiler plugin (ivy/plugin.ts)\<close>

subsection \<open>The builder program\<close>

text \<open>
  The TypeScript builder program is a collaborator. The plugin asks it for its source
  files, for the source file of a path, for all dependencies of a source file, and to
  emit. \<open>emit\<close> takes the target source file (\<open>undefined\<close> stands for the whole
  program) and answers with the files it writes through the \<open>writeFile\<close> callback, in
  order, each with its name and its data.
\<close>

record SourceFile =
  fileName :: string
  isDeclarationFile :: bool

record BuilderProgram =
  getSourceFiles :: "SourceFile list"
  getSourceFile :: "string \<Rightarrow> SourceFile option"
  getAllDependencies :: "SourceFile \<Rightarrow> string list"
  emit :: "SourceFile option \<Rightarrow> (string \<times> string) list"

text \<open>A module of the bundler, with the \<open>resource\<close> it was built from, if it has one.\<close>

record Module =
  resource :: "string option"

subsection \<open>Unused files\<close>

text \<open>
  Modelled from the spec: \<open>addWarning\<close> of \<open>webpack-diagnostics\<close>, which is not among the
  sources. The spec has the unused-file condition recorded as a warning that does not
  fail the build: the message joins the warnings of the compilation.
\<close>

definition addWarning :: "compilation \<Rightarrow> string \<Rightarrow> compilation" where
  "addWarning c message = c\<lparr>warnings := warnings c @ [message]\<rparr>"

definition unused_message :: "string \<Rightarrow> string" where
  "unused_message unused =
     unused @ '' is part of the TypeScript compilation but it's unused.'' @ [CHR 0x0A]
       @ ''Add only entry points to the 'files' or 'include' properties in your tsconfig.''"

text \<open>
  \<open>allProgramFiles\<close>: the source files of the builder that are not internal files;
  \<open>internalFiles\<close> is \<open>undefined\<close> for a JIT program.
\<close>

definition allProgramFiles :: "BuilderProgram \<Rightarrow> SourceFile list option \<Rightarrow> SourceFile list" where
  "allProgramFiles program internalFiles =
     filter (\<lambda>sourceFile. case internalFiles of
                             None \<Rightarrow> True
                           | Some internal \<Rightarrow> sourceFile \<notin> set internal)
            (getSourceFiles program)"

text \<open>
  \<open>currentUnused\<close>: the names of the program files that are not declaration files,
  without the dependencies of every module whose resource is a source file of the
  program. A module without a resource, or with an empty one, is skipped.
\<close>

definition delete_dependencies :: "BuilderProgram \<Rightarrow> Module \<Rightarrow> string list \<Rightarrow> string list" where
  "delete_dependencies program m currentUnused =
     (case resource m of
        None \<Rightarrow> currentUnused
      | Some r \<Rightarrow>
          if r = [] then currentUnused
          else (case getSourceFile program r of
                  None \<Rightarrow> currentUnused
                | Some sourceFile \<Rightarrow>
                    fold removeAll (getAllDependencies program sourceFile) currentUnused))"

definition current_unused :: "BuilderProgram \<Rightarrow> SourceFile list \<Rightarrow> Module list \<Rightarrow> string list" where
  "current_unused program files modules =
     fold (delete_dependencies program) modules
       (new_Set (map fileName (filter (\<lambda>sourceFile. \<not> isDeclarationFile sourceFile) files)))"

text \<open>
  The test \<open>previousUnused && previousUnused.has(unused)\<close> and the body of the loop over
  \<open>currentUnused\<close>.
\<close>

definition was_unused :: "string list option \<Rightarrow> string \<Rightarrow> bool" where
  "was_unused previousUnused unused =
     (case previousUnused of Some previous \<Rightarrow> unused \<in> set previous | None \<Rightarrow> False)"

definition warn_unused :: "string list option \<Rightarrow> string \<Rightarrow> compilation \<Rightarrow> compilation" where
  "warn_unused previousUnused unused c =
     (if was_unused previousUnused unused then c
      else addWarning c (unused_message unused))"

text \<open>
  The end of the \<open>finishModules\<close> hook, from the comment \<open>Analyze program for unused
  files\<close> on. The state is the compilation and the variable \<open>previousUnused\<close> of
  \<open>apply\<close>.
\<close>

definition analyze_unused ::
  "BuilderProgram \<Rightarrow> SourceFile list \<Rightarrow> Module list \<Rightarrow> compilation \<times> string list option \<Rightarrow>
     compilation \<times> string list option" where
  "analyze_unused program files modules state =
     (case state of
        (c, previousUnused) \<Rightarrow>
          if length (errors c) > 0 then (c, previousUnused)
          else (let currentUnused = current_unused program files modules
                in (fold (warn_unused previousUnused) currentUnused c, Some currentUnused)))"

text \<open>The warnings a hook has added to a compilation.\<close>

definition added_warnings :: "compilation \<Rightarrow> compilation \<Rightarrow> string list" where
  "added_warnings before after = drop (length (warnings before)) (warnings after)"

text \<open>
  The dependencies of the bundled modules: of every module whose resource is a source
  file of the program.
\<close>

definition bundled_dependencies :: "BuilderProgram \<Rightarrow> Module list \<Rightarrow> string set" where
  "bundled_dependencies program modules =
     {d. \<exists>m r sf. m \<in> set modules \<and> resource m = Some r \<and> r \<noteq> [] \<and>
           getSourceFile program r = Some sf \<and> d \<in> set (getAllDependencies program sf)}"

subsection \<open>The file emitter\<close>

text \<open>
  What the emitter resolves with. The field \<open>map\<close> of the source is \<open>map_data\<close> here.
\<close>

record EmitFileResult =
  content :: "string option"
  map_data :: "string option"
  dependencies :: "string list"

text \<open>\<open>filename.endsWith(ending)\<close>.\<close>

definition endsWith :: "string \<Rightarrow> string \<Rightarrow> bool" where
  "endsWith s ending = (length ending \<le> length s \<and> drop (length s - length ending) s = ending)"

text \<open>
  The \<open>writeFile\<close> callback handed to \<open>emit\<close>, on the pair of the variables
  \<open>content\<close> (here \<open>js\<close>) and \<open>map\<close> (here \<open>mp\<close>).
\<close>

definition write_file :: "string \<times> string \<Rightarrow> string option \<times> string option \<Rightarrow> string option \<times> string option" where
  "write_file written acc =
     (case (written, acc) of
        ((filename, data), (js, mp)) \<Rightarrow>
          if endsWith filename ''.map'' then (js, Some data)
          else if endsWith filename ''.js'' then (Some data, mp)
          else (js, mp))"

text \<open>
  \<open>createFileEmitter\<close>. \<open>externalizePath\<close> (ivy/paths) is a parameter, and so is the state
  of the plugin that the optional \<open>onAfterEmit\<close> works on. The emitter answers with
  what its promise resolves with (\<open>None\<close> is \<open>undefined\<close>), that state, and the targets
  of the calls of \<open>program.emit\<close> it has made.
\<close>

definition createFileEmitter ::
  "(string \<Rightarrow> string) \<Rightarrow> BuilderProgram \<Rightarrow> (SourceFile \<Rightarrow> string list) \<Rightarrow>
     (SourceFile \<Rightarrow> 's \<Rightarrow> 's) option \<Rightarrow>
     string \<Rightarrow> 's \<Rightarrow> EmitFileResult option \<times> 's \<times> SourceFile option list" where
  "createFileEmitter externalizePath program getExtraDependencies onAfterEmit =
     (\<lambda>requested s.
        case getSourceFile program requested of
          None \<Rightarrow> (None, s, [])
        | Some sourceFile \<Rightarrow>
            (case fold write_file (emit program (Some sourceFile)) (None, None) of
               (js, mp) \<Rightarrow>
                 (Some \<lparr>content = js, map_data = mp,
                        dependencies =
                          map externalizePath
                            (getAllDependencies program sourceFile
                             @ getExtraDependencies sourceFile)\<rparr>,
                  (case onAfterEmit of None \<Rightarrow> s | Some after \<Rightarrow> after sourceFile s),
                  [Some sourceFile])))"

subsection \<open>State kept between compilations\<close>












subsection \<open>A small program, for the closed instances of the theorems\<close>

text \<open>
  A program of three files, of which the bundle uses \<open>main.ts\<close> and, through it, the
  declaration file; \<open>unused.ts\<close> is in the program only. Emitting a file writes its
  script and its sourcemap; emitting the whole program writes those of both scripts.
\<close>

definition example_main :: SourceFile where
  "example_main = \<lparr>fileName = ''/app/main.ts'', isDeclarationFile = False\<rparr>"

definition example_unused :: SourceFile where
  "example_unused = \<lparr>fileName = ''/app/unused.ts'', isDeclarationFile = False\<rparr>"

definition example_declarations :: SourceFile where
  "example_declarations = \<lparr>fileName = ''/app/lib.d.ts'', isDeclarationFile = True\<rparr>"

definition example_program :: BuilderProgram where
  "example_program =
     \<lparr>getSourceFiles = [example_main, example_unused, example_declarations],
      getSourceFile =
        (\<lambda>path. if path = ''/app/main.ts'' then Some example_main
                else if path = ''/app/unused.ts'' then Some example_unused
                else if path = ''/app/lib.d.ts'' then Some example_declarations
                else None),
      getAllDependencies =
        (\<lambda>sourceFile. if sourceFile = example_main then [''/app/main.ts'', ''/app/lib.d.ts'']
                      else [fileName sourceFile]),
      emit =
        (\<lambda>target. case target of
                    Some sourceFile \<Rightarrow>
                      [(fileName sourceFile @ ''.js.map'', ''map of '' @ fileName sourceFile),
                       (fileName sourceFile @ ''.js'', ''js of '' @ fileName sourceFile)]
                  | None \<Rightarrow>
                      [(''/app/main.ts.js'', ''js of /app/main.ts''),
                       (''/app/unused.ts.js'', ''js of /app/unused.ts'')])\<rparr>"

definition example_modules :: "Module list" where
  "example_modules = [\<lparr>resource = Some ''/app/main.ts''\<rparr>, \<lparr>resource = None\<rparr>,
                      \<lparr>resource = Some ''/app/a.css''\<rparr>]"

text \<open>
  Three rebuild cycles over this program, each with a new compilation that has no
  errors, and one build whose compilation has an error.
\<close>

definition example_cycle1 :: "compilation \<times> string list option" where
  "example_cycle1 =
     analyze_unused example_program (allProgramFiles example_program None) example_modules
       (example_parent, None)"

definition example_cycle2 :: "compilation \<times> string list option" where
  "example_cycle2 =
     analyze_unused example_program (allProgramFiles example_program None) example_modules
       (example_parent, snd example_cycle1)"

definition example_cycle3 :: "compilation \<times> string list option" where
  "example_cycle3 =
     analyze_unused example_program (allProgramFiles example_program None) example_modules
       (example_parent, snd example_cycle2)"

definition example_failed :: compilation where
  "example_failed = example_parent\<lparr>errors := [''TS2304'']\<rparr>"

definition example_failed_cycle :: "compilation \<times> string list option" where
  "example_failed_cycle =
     analyze_unused example_program (allProgramFiles example_program None) example_modules
       (example_failed, None)"

subsection \<open>Small builds, for the closed instances of the theorems\<close>







section \<open>Sets as lists\<close>

lemma set_fold_set_add: "set (fold set_add xs acc) = set acc \<union> set xs"
  by (induction xs arbitrary: acc) (auto simp: set_add_def)

lemma distinct_fold_set_add: "distinct acc \<Longrightarrow> distinct (fold set_add xs acc)"
  by (induction xs arbitrary: acc) (auto simp: set_add_def)

lemma set_new_Set: "set (new_Set xs) = set xs"
  by (simp add: new_Set_def set_fold_set_add)

section \<open>The resource loader: shape of a run of \<open>_compile\<close>\<close>

lemma map_of_assets_set: "map_of (assets_set obj name v) = (map_of obj)(name \<mapsto> v)"
  by (induction obj name v rule: assets_set.induct) (auto simp: fun_eq_iff)

lemma assets_get_assets_set:
  "assets_get (assets_set obj name v) n = (if n = name then Some v else assets_get obj n)"
  by (simp add: assets_get_def map_of_assets_set)

lemma get_property_Undefined:
  "get_property obj name = Undefined \<Longrightarrow> assets_get obj name = None"
  by (auto simp: get_property_def assets_get_def split: option.splits if_splits)

lemma propagate_asset_keeps:
  "assets_get pa name = Some v \<Longrightarrow>
   assets_get (propagate_asset filePath ca k pa) name = Some v"
  by (auto simp: propagate_asset_def assets_get_assets_set
           dest: get_property_Undefined split: option.splits)

lemma propagate_asset_skips:
  "name = filePath \<or> name = filePath @ ''.map'' \<Longrightarrow> assets_get pa name = None \<Longrightarrow>
   assets_get (propagate_asset filePath ca k pa) name = None"
  by (auto simp: propagate_asset_def assets_get_assets_set split: option.splits)

lemma fold_propagate_asset_keeps:
  "assets_get pa name = Some v \<Longrightarrow>
   assets_get (fold (propagate_asset filePath ca) ks pa) name = Some v"
  by (induction ks arbitrary: pa) (simp_all add: propagate_asset_keeps)

lemma fold_propagate_asset_skips:
  "name = filePath \<or> name = filePath @ ''.map'' \<Longrightarrow> assets_get pa name = None \<Longrightarrow>
   assets_get (fold (propagate_asset filePath ca) ks pa) name = None"
  by (induction ks arbitrary: pa) (simp_all add: propagate_asset_skips)

lemma compile_resource_elim:
  assumes "compile env filePath l = (r, l', calls)"
  obtains
    (NoParent) "priv_parentCompilation l = None" "l' = l" "calls = []"
      "r = Inl (Error no_parent_message)"
  | (JsOrTs) parent where "priv_parentCompilation l = Some parent"
      "matches_js_or_ts filePath" "l' = l" "calls = []"
      "r = Inl (Text (js_or_ts_message filePath))"
  | (ChildFails) parent err where "priv_parentCompilation l = Some parent"
      "\<not> matches_js_or_ts filePath"
      "childCompiler env (priv_context l) filePath = Fails err"
      "l' = l" "calls = [CreateChildCompiler (priv_context l) filePath]"
      "r = Inl (Foreign err)"
  | (HookFails) parent sealed err c1 calls1 where "priv_parentCompilation l = Some parent"
      "\<not> matches_js_or_ts filePath"
      "childCompiler env (priv_context l) filePath = Seals sealed"
      "additionalAssets env filePath sealed l = (Some err, c1, l', calls1)"
      "calls = CreateChildCompiler (priv_context l) filePath # calls1"
      "r = Inl err"
  | (Absorbed) parent sealed c1 l1 calls1 where "priv_parentCompilation l = Some parent"
      "\<not> matches_js_or_ts filePath"
      "childCompiler env (priv_context l) filePath = Seals sealed"
      "additionalAssets env filePath sealed l = (None, c1, l1, calls1)"
      "cached_or_asset filePath c1 (absorb_child env filePath parent c1 l1) = (r, l')"
      "calls = CreateChildCompiler (priv_context l) filePath # calls1"
proof (cases "priv_parentCompilation l")
  case None
  with assms have "l' = l" "calls = []" "r = Inl (Error no_parent_message)"
    by (simp_all add: compile_def)
  with None show ?thesis by (rule NoParent)
next
  case (Some parent)
  note parent = this
  show ?thesis
  proof (cases "matches_js_or_ts filePath")
    case True
    with assms parent have "l' = l" "calls = []" "r = Inl (Text (js_or_ts_message filePath))"
      by (simp_all add: compile_def)
    with parent True show ?thesis by (rule JsOrTs)
  next
    case False
    show ?thesis
    proof (cases "childCompiler env (priv_context l) filePath")
      case (Fails err)
      with assms parent False have "l' = l"
        "calls = [CreateChildCompiler (priv_context l) filePath]" "r = Inl (Foreign err)"
        by (auto simp add: compile_def)
      with parent False Fails show ?thesis by (rule ChildFails)
    next
      case (Seals sealed)
      obtain e c1 l1 calls1 where
        hook: "additionalAssets env filePath sealed l = (e, c1, l1, calls1)"
        by (cases "additionalAssets env filePath sealed l") auto
      show ?thesis
      proof (cases e)
        case None
        obtain r2 l2 where
          tail: "cached_or_asset filePath c1 (absorb_child env filePath parent c1 l1) = (r2, l2)"
          by (cases "cached_or_asset filePath c1 (absorb_child env filePath parent c1 l1)") auto
        from assms parent False Seals hook None tail have "r = r2" "l' = l2"
          and calls: "calls = CreateChildCompiler (priv_context l) filePath # calls1"
          by (auto simp add: compile_def)
        with tail have
          "cached_or_asset filePath c1 (absorb_child env filePath parent c1 l1) = (r, l')"
          by simp
        with parent False Seals hook[unfolded None] show ?thesis
          using calls by (rule Absorbed)
      next
        case (Some err)
        from assms parent False Seals hook Some have "l' = l1"
          and calls: "calls = CreateChildCompiler (priv_context l) filePath # calls1"
          and r: "r = Inl err"
          by (auto simp add: compile_def)
        with hook Some have "additionalAssets env filePath sealed l = (Some err, c1, l', calls1)"
          by simp
        with parent False Seals show ?thesis
          using calls r by (rule HookFails)
      qed
    qed
  qed
qed

lemma parent_of_cached_or_asset:
  "cached_or_asset filePath c l = (r, l') \<Longrightarrow> priv_parentCompilation l' = priv_parentCompilation l"
  by (auto simp: cached_or_asset_def answer_from_asset_def split: option.splits if_splits)

lemma parent_of_additionalAssets:
  "additionalAssets env filePath c l = (e, c', l', calls) \<Longrightarrow>
   priv_parentCompilation l' = priv_parentCompilation l"
  by (auto simp: additionalAssets_def Let_def split: option.splits sum.splits)

lemma assets_of_absorb_child:
  "\<exists>p'. priv_parentCompilation (absorb_child env filePath parent c l) = Some p' \<and>
        assets p' = propagate_assets filePath (assets c) (assets parent)"
  by (simp add: absorb_child_def Let_def)

section \<open>Modified resources\<close>

lemma set_fold_affected:
  "set (fold (\<lambda>c acc. fold set_add (g c) acc) cs acc0) = set acc0 \<union> (\<Union>c\<in>set cs. set (g c))"
  by (induction cs arbitrary: acc0) (auto simp: set_fold_set_add)

text \<open>
  Claim C4. \<open>getModifiedResourceFiles\<close> returns, as a set, the union of
  \<open>getAffectedResources(c)\<close> over the files \<open>c\<close> of \<open>changedFiles\<close>, one hop through
  the reverse dependency map, and the empty set when no list of changed files has been
  supplied.
\<close>

theorem getModifiedResourceFiles_union:
  "set (getModifiedResourceFiles l) =
     (case changedFiles l of
        None \<Rightarrow> {}
      | Some changed \<Rightarrow> (\<Union>c\<in>set changed. set (getAffectedResources l c)))"
  by (auto simp add: getModifiedResourceFiles_def set_fold_affected split: option.splits)

section \<open>Forward and reverse dependencies\<close>

lemma deps_of_cached_or_asset:
  "cached_or_asset filePath c l = (r, l') \<Longrightarrow>
   priv_fileDependencies l' = priv_fileDependencies l \<and>
   priv_reverseDependencies l' = priv_reverseDependencies l"
  by (auto simp: cached_or_asset_def answer_from_asset_def split: option.splits if_splits)

lemma hook_keeps_compilation:
  "additionalAssets env filePath c l = (e, c', l', calls) \<Longrightarrow>
   fileDependencies c' = fileDependencies c \<and> fullHash c' = fullHash c"
  by (auto simp: additionalAssets_def Let_def split: option.splits sum.splits)

lemma add_reverse_keeps:
  "rd k = Some e \<Longrightarrow> filePath \<in> set e \<Longrightarrow>
   \<exists>e'. add_reverse env filePath d rd k = Some e' \<and> filePath \<in> set e'"
  by (auto simp: add_reverse_def Let_def set_add_def split: option.splits)

lemma add_reverse_adds:
  "\<exists>e'. add_reverse env filePath d rd (normalizePath env d) = Some e' \<and> filePath \<in> set e'"
  by (auto simp: add_reverse_def Let_def set_add_def new_Set_def split: option.splits)

lemma fold_add_reverse_keeps:
  "rd k = Some e \<Longrightarrow> filePath \<in> set e \<Longrightarrow>
   \<exists>e'. fold (add_reverse env filePath) ds rd k = Some e' \<and> filePath \<in> set e'"
proof (induction ds arbitrary: rd e)
  case Nil
  then show ?case by simp
next
  case (Cons d ds)
  from add_reverse_keeps[of rd k e filePath env d] Cons.prems obtain e1 where
    "add_reverse env filePath d rd k = Some e1" "filePath \<in> set e1" by blast
  with Cons.IH[of "add_reverse env filePath d rd" e1] show ?case by simp
qed

lemma fold_add_reverse_adds:
  "d \<in> set ds \<Longrightarrow>
   \<exists>e'. fold (add_reverse env filePath) ds rd (normalizePath env d) = Some e' \<and> filePath \<in> set e'"
proof (induction ds arbitrary: rd)
  case Nil
  then show ?case by simp
next
  case (Cons x ds)
  show ?case
  proof (cases "d = x")
    case True
    obtain e1 where "add_reverse env filePath x rd (normalizePath env x) = Some e1"
      "filePath \<in> set e1" using add_reverse_adds by blast
    with fold_add_reverse_keeps[of "add_reverse env filePath x rd" "normalizePath env x" e1
        filePath env ds] True
    show ?thesis by simp
  next
    case False
    with Cons.prems have "d \<in> set ds" by simp
    from Cons.IH[OF this] show ?thesis by simp
  qed
qed

text \<open>
  Claim C3. After a \<open>_compile(filePath)\<close> that resolves, the forward and the reverse
  dependency map agree: \<open>getResourceDependencies(filePath)\<close> is the set of file
  dependencies of the child compilation, and \<open>getAffectedResources(normalizePath(f))\<close>
  contains \<open>filePath\<close> for every file \<open>f\<close> of that set.
\<close>

theorem compile_resource_dependencies_in_sync:
  assumes "compile env filePath l = (Inr out, l', calls)"
  shows "\<exists>c. childCompiler env (priv_context l) filePath = Seals c \<and>
           set (getResourceDependencies l' filePath) = set (fileDependencies c) \<and>
           (\<forall>f\<in>set (fileDependencies c).
              filePath \<in> set (getAffectedResources l' (normalizePath env f)))"
  using assms
proof (cases rule: compile_resource_elim)
  case (Absorbed parent sealed c1 l1 calls1)
  let ?a = "absorb_child env filePath parent c1 l1"
  from hook_keeps_compilation[OF Absorbed(4)]
  have fd: "fileDependencies c1 = fileDependencies sealed" by simp
  from deps_of_cached_or_asset[OF Absorbed(5)]
  have same: "priv_fileDependencies l' = priv_fileDependencies ?a"
    "priv_reverseDependencies l' = priv_reverseDependencies ?a" by simp_all
  have fwd: "set (getResourceDependencies l' filePath) = set (fileDependencies sealed)"
    by (simp add: getResourceDependencies_def same absorb_child_def Let_def set_new_Set fd)
  have bwd: "filePath \<in> set (getAffectedResources l' (normalizePath env f))"
    if "f \<in> set (fileDependencies sealed)" for f
  proof -
    from fold_add_reverse_adds[OF that, of env filePath "priv_reverseDependencies l1"]
    show ?thesis
      by (auto simp: getAffectedResources_def same absorb_child_def Let_def fd)
  qed
  from Absorbed(3) fwd bwd show ?thesis by blast
qed simp_all

section \<open>Propagation of assets to the parent compilation\<close>

text \<open>
  Claim C9. Whatever way \<open>_compile\<close> ends, every asset the parent compilation had
  is still there with the same source, and neither \<open>filePath\<close> nor
  \<open>filePath + '.map'\<close> has been added to the parent's assets.
\<close>

theorem compile_resource_parent_assets_frame:
  assumes "priv_parentCompilation l = Some parent"
    and "compile env filePath l = (r, l', calls)"
  shows "\<exists>parent'. priv_parentCompilation l' = Some parent' \<and>
           (\<forall>name v. assets_get (assets parent) name = Some v \<longrightarrow>
                      assets_get (assets parent') name = Some v) \<and>
           (assets_get (assets parent) filePath = None \<longrightarrow>
              assets_get (assets parent') filePath = None) \<and>
           (assets_get (assets parent) (filePath @ ''.map'') = None \<longrightarrow>
              assets_get (assets parent') (filePath @ ''.map'') = None)"
  using assms(2)
proof (cases rule: compile_resource_elim)
  case NoParent
  with assms show ?thesis by simp
next
  case (JsOrTs p)
  with assms show ?thesis by simp
next
  case (ChildFails p err)
  with assms show ?thesis by simp
next
  case (HookFails p sealed err c1 calls1)
  with assms parent_of_additionalAssets[OF HookFails(4)] show ?thesis by simp
next
  case (Absorbed p sealed c1 l1 calls1)
  from Absorbed(1) assms(1) have p: "p = parent" by simp
  obtain p' where p': "priv_parentCompilation (absorb_child env filePath parent c1 l1) = Some p'"
    "assets p' = propagate_assets filePath (assets c1) (assets parent)"
    using assets_of_absorb_child by blast
  from parent_of_cached_or_asset[OF Absorbed(5)] p p'
  have "priv_parentCompilation l' = Some p'" by simp
  with p'(2) show ?thesis
    by (auto simp: propagate_assets_def fold_propagate_asset_keeps fold_propagate_asset_skips)
qed

section \<open>The example build, evaluated\<close>

lemmas example_defs = example_loader_def example_env_def example_child_def example_parent_def
  update_def new_WebpackResourceLoader_def

lemmas compile_defs = compile_def additionalAssets_def evaluate_def
  cached_or_asset_def answer_from_asset_def absorb_child_def propagate_assets_def
  propagate_asset_def add_reverse_def matches_js_or_ts_def assets_get_def get_property_def
  object_prototype_names_def new_Set_def set_add_def Let_def

lemma ex_result:
  "fst (compile example_env ''/app/a.css'' example_loader) =
     Inr \<lparr>outputName = ''/app/a.css'', source = ''text of bundle A''\<rparr>"
  by (simp add: example_defs compile_defs)

lemma ex_calls:
  "snd (snd (compile example_env ''/app/a.css'' example_loader)) =
     [CreateChildCompiler ''/app'' ''/app/a.css'', RunInNewContext ''bundle A'' ''/app/a.css'']"
  by (simp add: example_defs compile_defs)

lemma ex_parent:
  "map_option assets (priv_parentCompilation (fst (snd (compile example_env ''/app/a.css'' example_loader)))) =
     Some [(''main.js'', Generated ''main''), (''logo.png'', Generated ''png'')]"
  by (simp add: example_defs compile_defs)

lemmas example_defs2 = example_defs example_loader1_def example_loader2_def example_parent2_def
  example_child2_def example_env2_def example_child3_def example_env3_def

text \<open>The frame of the parent's assets on the example build.\<close>

theorem compile_resource_parent_assets_frame_witness:
  "priv_parentCompilation example_loader = Some example_parent \<and>
   (\<exists>parent'.
      priv_parentCompilation
        (fst (snd (compile example_env ''/app/a.css'' example_loader))) = Some parent' \<and>
      assets_get (assets parent') ''main.js'' = Some (Generated ''main'') \<and>
      assets_get (assets parent') ''/app/a.css'' = None \<and>
      assets_get (assets parent') ''/app/a.css.map'' = None)"
proof -
  have p: "priv_parentCompilation example_loader = Some example_parent"
    by (simp add: example_loader_def update_def)
  have run: "compile example_env ''/app/a.css'' example_loader =
      (fst (compile example_env ''/app/a.css'' example_loader),
       fst (snd (compile example_env ''/app/a.css'' example_loader)),
       snd (snd (compile example_env ''/app/a.css'' example_loader)))"
    by simp
  have a: "assets_get (assets example_parent) ''main.js'' = Some (Generated ''main'')"
    "assets_get (assets example_parent) ''/app/a.css'' = None"
    "assets_get (assets example_parent) (''/app/a.css'' @ ''.map'') = None"
    by (simp_all add: example_parent_def assets_get_def)
  from compile_resource_parent_assets_frame[OF p run] a p show ?thesis
    by auto
qed

text \<open>The two dependency maps after the example build.\<close>

theorem compile_resource_dependencies_in_sync_witness:
  "fst (compile example_env ''/app/a.css'' example_loader) =
     Inr \<lparr>outputName = ''/app/a.css'', source = ''text of bundle A''\<rparr> \<and>
   set (getResourceDependencies example_loader1 ''/app/a.css'') = {''/app/a.css'', ''/app/b.css''} \<and>
   ''/app/a.css'' \<in> set (getAffectedResources example_loader1 ''/app/b.css'') \<and>
   ''/app/a.css'' \<in> set (getAffectedResources example_loader1 ''/app/a.css'')"
proof -
  have run: "compile example_env ''/app/a.css'' example_loader =
      (Inr \<lparr>outputName = ''/app/a.css'', source = ''text of bundle A''\<rparr>, example_loader1,
       snd (snd (compile example_env ''/app/a.css'' example_loader)))"
    using ex_result by (simp add: example_loader1_def prod_eq_iff)
  have c: "childCompiler example_env (priv_context example_loader) ''/app/a.css'' =
      Seals example_child"
    by (simp add: example_env_def)
  have d: "fileDependencies example_child = [''/app/a.css'', ''/app/b.css'']"
    "normalizePath example_env = (\<lambda>p. p)"
    by (simp_all add: example_child_def example_env_def)
  from compile_resource_dependencies_in_sync[OF run] c d ex_result show ?thesis
    by auto
qed

section \<open>The caches of compiled resources\<close>

lemma caches_consistent_new: "caches_consistent new_WebpackResourceLoader"
  by (simp add: caches_consistent_def new_WebpackResourceLoader_def)

lemma caches_consistent_update: "caches_consistent l \<Longrightarrow> caches_consistent (update parent changed l)"
  by (simp add: caches_consistent_def update_def)

lemma caches_consistent_setAffectedResources:
  "caches_consistent l \<Longrightarrow> caches_consistent (setAffectedResources f rs l)"
  by (simp add: caches_consistent_def setAffectedResources_def)

lemma caches_of_absorb_child:
  "priv_cachedSources (absorb_child env filePath parent c l) = priv_cachedSources l"
  "priv_cachedEvaluatedSources (absorb_child env filePath parent c l) =
     priv_cachedEvaluatedSources l"
  by (simp_all add: absorb_child_def Let_def)

lemma hook_hit:
  "priv_cachedEvaluatedSources l (fullHash c) = Some ev \<Longrightarrow>
   additionalAssets env filePath c l =
     (None, c\<lparr>assets := assets_set (assets c) filePath ev\<rparr>, l, [])"
  by (simp add: additionalAssets_def)

lemma hook_post:
  assumes "additionalAssets env filePath c l = (None, c', l1, calls)" and "caches_consistent l"
  shows "caches_consistent l1" "priv_cachedSources l1 = priv_cachedSources l"
    "fullHash c' = fullHash c"
    "assets_get (assets c') filePath = None \<and>
       priv_cachedEvaluatedSources l1 (fullHash c) = None \<or>
     (\<exists>s. assets_get (assets c') filePath = Some (RawSource s) \<and>
          priv_cachedEvaluatedSources l1 (fullHash c) = Some (RawSource s))"
    "\<forall>h ev. priv_cachedEvaluatedSources l h = Some ev \<longrightarrow>
            priv_cachedEvaluatedSources l1 h = Some ev"
proof -
  show "fullHash c' = fullHash c"
    using assms(1) by (auto simp: additionalAssets_def Let_def split: option.splits sum.splits)
  show "priv_cachedSources l1 = priv_cachedSources l"
    using assms(1) by (auto simp: additionalAssets_def Let_def split: option.splits sum.splits)
  show "\<forall>h ev. priv_cachedEvaluatedSources l h = Some ev \<longrightarrow>
            priv_cachedEvaluatedSources l1 h = Some ev"
    using assms(1) by (auto simp: additionalAssets_def Let_def split: option.splits sum.splits)
  show "caches_consistent l1"
    using assms unfolding caches_consistent_def
    by (auto simp: additionalAssets_def Let_def split: option.splits sum.splits if_splits)
  show "assets_get (assets c') filePath = None \<and>
       priv_cachedEvaluatedSources l1 (fullHash c) = None \<or>
     (\<exists>s. assets_get (assets c') filePath = Some (RawSource s) \<and>
          priv_cachedEvaluatedSources l1 (fullHash c) = Some (RawSource s))"
  proof (cases "priv_cachedEvaluatedSources l (fullHash c)")
    case None
    with assms(1) show ?thesis
      by (auto simp: additionalAssets_def Let_def assets_get_assets_set
               split: option.splits sum.splits)
  next
    case (Some ev)
    with assms(2) have "ev = RawSource (source_text ev)" by (auto simp: caches_consistent_def)
    with Some assms(1) show ?thesis
      by (auto simp: additionalAssets_def assets_get_assets_set)
  qed
qed

lemma tail_post:
  assumes "cached_or_asset filePath c' la = (r, l')" and "caches_consistent la"
    and "assets_get (assets c') filePath = None \<and>
           priv_cachedEvaluatedSources la (fullHash c') = None \<or>
         (\<exists>s. assets_get (assets c') filePath = Some (RawSource s) \<and>
              priv_cachedEvaluatedSources la (fullHash c') = Some (RawSource s))"
  shows "caches_consistent l'"
    "priv_cachedEvaluatedSources l' = priv_cachedEvaluatedSources la"
    "\<forall>h s. priv_cachedSources la h = Some s \<longrightarrow> priv_cachedSources l' h = Some s"
    "\<forall>out. r = Inr out \<longrightarrow> priv_cachedSources l' (fullHash c') = Some (source out)"
    "\<forall>s. priv_cachedSources la (fullHash c') = Some s \<longrightarrow>
         r = Inr \<lparr>outputName = filePath, source = s\<rparr>"
proof -
  show "priv_cachedEvaluatedSources l' = priv_cachedEvaluatedSources la"
    using assms(1)
    by (auto simp: cached_or_asset_def answer_from_asset_def split: option.splits if_splits)
  show "\<forall>out. r = Inr out \<longrightarrow> priv_cachedSources l' (fullHash c') = Some (source out)"
    using assms(1)
    by (auto simp: cached_or_asset_def answer_from_asset_def split: option.splits if_splits)
  show "caches_consistent l'"
    using assms unfolding caches_consistent_def
    by (auto simp: cached_or_asset_def answer_from_asset_def split: option.splits if_splits)
  show "\<forall>h s. priv_cachedSources la h = Some s \<longrightarrow> priv_cachedSources l' h = Some s"
    using assms unfolding caches_consistent_def
    by (auto simp: cached_or_asset_def answer_from_asset_def split: option.splits if_splits)
  show "\<forall>s. priv_cachedSources la (fullHash c') = Some s \<longrightarrow>
         r = Inr \<lparr>outputName = filePath, source = s\<rparr>"
    using assms unfolding caches_consistent_def
    by (auto simp: cached_or_asset_def answer_from_asset_def split: option.splits if_splits)
qed

text \<open>
  Claim C1, as the code has it. The caches are keyed by the full hash of the child
  compilation of the resource; no hash of the parent compilation is read. In a loader
  whose caches are consistent, with a parent compilation and a path that is not a script:
  when a string is cached under the hash of the sealed child compilation, the hook puts
  the cached evaluated source in place as the asset without calling the \<open>vm\<close>, and
  \<open>_compile\<close> resolves with the cached string after the one call of the child
  compiler; and every \<open>_compile\<close> that resolves leaves its string cached under that
  hash, keeps the caches consistent and keeps every cached string.
\<close>

theorem compile_resource_cache_keyed_by_child_hash:
  assumes "caches_consistent l" and "priv_parentCompilation l = Some parent"
    and "\<not> matches_js_or_ts filePath"
    and "childCompiler env (priv_context l) filePath = Seals c"
  shows "(\<forall>s. priv_cachedSources l (fullHash c) = Some s \<longrightarrow>
            (\<exists>ev l'. priv_cachedEvaluatedSources l (fullHash c) = Some ev \<and>
               source_text ev = s \<and>
               additionalAssets env filePath c l =
                 (None, c\<lparr>assets := assets_set (assets c) filePath ev\<rparr>, l, []) \<and>
               compile env filePath l =
                 (Inr \<lparr>outputName = filePath, source = s\<rparr>, l',
                  [CreateChildCompiler (priv_context l) filePath]))) \<and>
         (\<forall>out l' calls. compile env filePath l = (Inr out, l', calls) \<longrightarrow>
            caches_consistent l' \<and> priv_cachedSources l' (fullHash c) = Some (source out) \<and>
            (\<forall>h s. priv_cachedSources l h = Some s \<longrightarrow> priv_cachedSources l' h = Some s))"
proof -
  obtain r l' calls where run: "compile env filePath l = (r, l', calls)"
    by (cases "compile env filePath l") auto
  from run show ?thesis
  proof (cases rule: compile_resource_elim)
    case NoParent
    with assms(2) show ?thesis by simp
  next
    case (JsOrTs p)
    with assms(3) show ?thesis by simp
  next
    case (ChildFails p err)
    with assms(4) show ?thesis by simp
  next
    case (HookFails p sealed err c1 calls1)
    from HookFails(3) assms(4) have c: "sealed = c" by simp
    have "priv_cachedEvaluatedSources l (fullHash c) = None"
    proof (rule ccontr)
      assume "priv_cachedEvaluatedSources l (fullHash c) \<noteq> None"
      then obtain ev where "priv_cachedEvaluatedSources l (fullHash c) = Some ev" by auto
      from hook_hit[OF this, of env filePath] HookFails(4) c show False by simp
    qed
    with assms(1) have "priv_cachedSources l (fullHash c) = None"
      by (cases "priv_cachedSources l (fullHash c)") (auto simp: caches_consistent_def)
    with run HookFails(6) show ?thesis by simp
  next
    case (Absorbed p sealed c1 l1 calls1)
    from Absorbed(3) assms(4) have c: "sealed = c" by simp
    from Absorbed(1) assms(2) have p: "p = parent" by simp
    let ?la = "absorb_child env filePath parent c1 l1"
    note hook = hook_post[OF Absorbed(4)[unfolded c] assms(1)]
    have la_ok: "caches_consistent ?la"
      using hook(1) by (simp add: caches_consistent_def caches_of_absorb_child)
    have la_asset: "assets_get (assets c1) filePath = None \<and>
           priv_cachedEvaluatedSources ?la (fullHash c1) = None \<or>
         (\<exists>s. assets_get (assets c1) filePath = Some (RawSource s) \<and>
              priv_cachedEvaluatedSources ?la (fullHash c1) = Some (RawSource s))"
      using hook(4) by (simp add: caches_of_absorb_child hook(3))
    note tail = tail_post[OF Absorbed(5)[unfolded p] la_ok la_asset]
    have part2: "caches_consistent l' \<and> priv_cachedSources l' (fullHash c) = Some (source out) \<and>
            (\<forall>h s. priv_cachedSources l h = Some s \<longrightarrow> priv_cachedSources l' h = Some s)"
      if "r = Inr out" for out
      using that tail(1,3,4) hook(2,3) by (simp add: caches_of_absorb_child)
    have part1: "\<exists>ev l'. priv_cachedEvaluatedSources l (fullHash c) = Some ev \<and>
               source_text ev = s \<and>
               additionalAssets env filePath c l =
                 (None, c\<lparr>assets := assets_set (assets c) filePath ev\<rparr>, l, []) \<and>
               compile env filePath l =
                 (Inr \<lparr>outputName = filePath, source = s\<rparr>, l',
                  [CreateChildCompiler (priv_context l) filePath])"
      if s: "priv_cachedSources l (fullHash c) = Some s" for s
    proof -
      from s assms(1) have ev: "priv_cachedEvaluatedSources l (fullHash c) = Some (RawSource s)"
        by (auto simp: caches_consistent_def)
      note hit = hook_hit[OF ev, of env filePath]
      with Absorbed(4) c have "calls1 = []" by simp
      moreover from s tail(5) hook(2,3) have "r = Inr \<lparr>outputName = filePath, source = s\<rparr>"
        by (simp add: caches_of_absorb_child)
      ultimately show ?thesis using ev hit run Absorbed(6) by auto
    qed
    from part1 part2 run show ?thesis by auto
  qed
qed

text \<open>
  A rebuild under a new parent compilation whose child compilation has the old hash is
  answered from the cache, with a \<open>vm\<close> that would throw.
\<close>

theorem compile_resource_cache_keyed_by_child_hash_witness:
  "caches_consistent example_loader2 \<and>
   map_option fullHash (priv_parentCompilation example_loader2) = Some ''p2'' \<and>
   \<not> matches_js_or_ts ''/app/a.css'' \<and>
   childCompiler example_env2 (priv_context example_loader2) ''/app/a.css'' = Seals example_child2 \<and>
   priv_cachedSources example_loader2 (fullHash example_child2) = Some ''text of bundle A'' \<and>
   additionalAssets example_env2 ''/app/a.css'' example_child2 example_loader2 =
     (None, example_child2\<lparr>assets := [(''/app/a.css'', RawSource ''text of bundle A'')]\<rparr>,
      example_loader2, []) \<and>
   fst (compile example_env2 ''/app/a.css'' example_loader2) =
     Inr \<lparr>outputName = ''/app/a.css'', source = ''text of bundle A''\<rparr> \<and>
   snd (snd (compile example_env2 ''/app/a.css'' example_loader2)) =
     [CreateChildCompiler ''/app'' ''/app/a.css'']"
proof -
  have ok0: "caches_consistent example_loader"
    by (simp add: example_loader_def caches_consistent_update caches_consistent_new)
  have p0: "priv_parentCompilation example_loader = Some example_parent"
    by (simp add: example_loader_def update_def)
  have m: "\<not> matches_js_or_ts ''/app/a.css''"
    by (simp add: matches_js_or_ts_def)
  have c0: "childCompiler example_env (priv_context example_loader) ''/app/a.css'' =
      Seals example_child"
    by (simp add: example_env_def)
  have run0: "compile example_env ''/app/a.css'' example_loader =
      (Inr \<lparr>outputName = ''/app/a.css'', source = ''text of bundle A''\<rparr>, example_loader1,
       snd (snd (compile example_env ''/app/a.css'' example_loader)))"
    using ex_result by (simp add: example_loader1_def prod_eq_iff)
  note first = compile_resource_cache_keyed_by_child_hash[OF ok0 p0 m c0,
      THEN conjunct2, rule_format, OF run0]
  from first have ok1: "caches_consistent example_loader1"
    and cached1: "priv_cachedSources example_loader1 (fullHash example_child) =
      Some ''text of bundle A''"
    by simp_all
  have ok2: "caches_consistent example_loader2"
    using ok1 by (simp add: example_loader2_def caches_consistent_update)
  have p2: "priv_parentCompilation example_loader2 = Some example_parent2"
    by (simp add: example_loader2_def update_def)
  have c2: "childCompiler example_env2 (priv_context example_loader2) ''/app/a.css'' =
      Seals example_child2"
    by (simp add: example_env2_def)
  have cached2: "priv_cachedSources example_loader2 (fullHash example_child2) =
      Some ''text of bundle A''"
    using cached1 by (simp add: example_loader2_def update_def example_child_def example_child2_def)
  from compile_resource_cache_keyed_by_child_hash[OF ok2 p2 m c2,
      THEN conjunct1, rule_format, OF cached2]
  obtain ev l' where hit: "priv_cachedEvaluatedSources example_loader2 (fullHash example_child2) = Some ev"
    "source_text ev = ''text of bundle A''"
    "additionalAssets example_env2 ''/app/a.css'' example_child2 example_loader2 =
       (None, example_child2\<lparr>assets := assets_set (assets example_child2) ''/app/a.css'' ev\<rparr>,
        example_loader2, [])"
    "compile example_env2 ''/app/a.css'' example_loader2 =
       (Inr \<lparr>outputName = ''/app/a.css'', source = ''text of bundle A''\<rparr>, l',
        [CreateChildCompiler (priv_context example_loader2) ''/app/a.css''])"
    by blast
  from ok2 hit(1) have "ev = RawSource (source_text ev)"
    unfolding caches_consistent_def by blast
  with hit(2) have ev: "ev = RawSource ''text of bundle A''" by simp
  have ctx: "priv_context example_loader2 = ''/app''"
    by (simp add: example_loader2_def update_def example_parent2_def)
  have a: "assets_set (assets example_child2) ''/app/a.css'' ev =
      [(''/app/a.css'', RawSource ''text of bundle A'')]"
    by (simp add: example_child2_def ev)
  from ok2 p2 m c2 cached2 hit(3,4) a ctx show ?thesis
    by (simp add: example_parent2_def)
qed

text \<open>
  With the parent compilation and its hash unchanged, a child compilation with another
  hash is evaluated again and answers with another string.
\<close>

theorem compile_resource_parent_hash_counterexample:
  "map_option fullHash (priv_parentCompilation example_loader) = Some ''p1'' \<and>
   fst (compile example_env ''/app/a.css'' example_loader) =
     Inr \<lparr>outputName = ''/app/a.css'', source = ''text of bundle A''\<rparr> \<and>
   map_option fullHash (priv_parentCompilation example_loader1) = Some ''p1'' \<and>
   fst (compile example_env3 ''/app/a.css'' example_loader1) =
     Inr \<lparr>outputName = ''/app/a.css'', source = ''text of bundle B''\<rparr> \<and>
   snd (snd (compile example_env3 ''/app/a.css'' example_loader1)) =
     [CreateChildCompiler ''/app'' ''/app/a.css'', RunInNewContext ''bundle B'' ''/app/a.css'']"
  by (simp add: example_defs2 compile_defs)

section \<open>Rejections of \<open>get\<close>\<close>
















section \<open>Properties of the hash formats\<close>

text \<open>
  Claim C10 at the option \<open>constructor\<close>: the property read finds
  \<open>Object.prototype.constructor\<close>, which is truthy, so the fallback to the format
  \<open>none\<close> is not taken and the result is not a hash format.
\<close>

theorem getOutputHashFormat_inherited_property:
  "getOutputHashFormat ''constructor'' None = ObjectPrototype ''constructor'' \<and>
   getOutputHashFormat ''constructor'' None \<noteq>
     Own \<lparr>chunk = '''', extract = '''', file = '''', script = ''''\<rparr>"
  by (simp add: getOutputHashFormat_def get_property_def hashFormats_def
        object_prototype_names_def)

text \<open>
  The four known options, and every option that is neither known nor a member of
  \<open>Object.prototype\<close>.
\<close>

lemma getOutputHashFormat_known:
  "getOutputHashFormat ''none'' len = Own \<lparr>chunk = '''', extract = '''', file = '''', script = ''''\<rparr>"
  "getOutputHashFormat ''media'' len =
     Own \<lparr>chunk = '''', extract = '''',
          file = ''.[hash:'' @ decimal (case len of None \<Rightarrow> 20 | Some n \<Rightarrow> n) @ '']'',
          script = ''''\<rparr>"
  "getOutputHashFormat ''bundles'' len =
     Own \<lparr>chunk = ''.[chunkhash:'' @ decimal (case len of None \<Rightarrow> 20 | Some n \<Rightarrow> n) @ '']'',
          extract = ''.[contenthash:'' @ decimal (case len of None \<Rightarrow> 20 | Some n \<Rightarrow> n) @ '']'',
          file = '''',
          script = ''.[hash:'' @ decimal (case len of None \<Rightarrow> 20 | Some n \<Rightarrow> n) @ '']''\<rparr>"
  "getOutputHashFormat ''all'' len =
     Own \<lparr>chunk = ''.[chunkhash:'' @ decimal (case len of None \<Rightarrow> 20 | Some n \<Rightarrow> n) @ '']'',
          extract = ''.[contenthash:'' @ decimal (case len of None \<Rightarrow> 20 | Some n \<Rightarrow> n) @ '']'',
          file = ''.[hash:'' @ decimal (case len of None \<Rightarrow> 20 | Some n \<Rightarrow> n) @ '']'',
          script = ''.[hash:'' @ decimal (case len of None \<Rightarrow> 20 | Some n \<Rightarrow> n) @ '']''\<rparr>"
  by (simp_all add: getOutputHashFormat_def get_property_def hashFormats_def Let_def
        del: decimal.simps)

lemma getOutputHashFormat_unknown:
  "option \<notin> {''none'', ''media'', ''bundles'', ''all''} \<Longrightarrow>
   option \<notin> set object_prototype_names \<Longrightarrow>
   getOutputHashFormat option len =
     Own \<lparr>chunk = '''', extract = '''', file = '''', script = ''''\<rparr>"
  by (simp add: getOutputHashFormat_def get_property_def hashFormats_def Let_def
        del: decimal.simps)

lemma decimal_20: "decimal 20 = ''20''"
  by code_simp

section \<open>Invalidation of the source file cache\<close>

lemma reachable_from_mono: "set seen \<subseteq> set (reachable_from reverse todo seen)"
  by (induction reverse todo seen rule: reachable_from.induct) auto

lemma reachable_from_todo: "set todo \<subseteq> set (reachable_from reverse todo seen)"
proof (induction reverse todo seen rule: reachable_from.induct)
  case (1 reverse seen)
  show ?case by simp
next
  case (2 reverse f todo seen)
  show ?case
  proof (cases "f \<in> set seen")
    case True
    with 2 reachable_from_mono[of seen reverse todo] show ?thesis by auto
  next
    case False
    with 2 reachable_from_mono[of "seen @ [f]" reverse "affected_by reverse f @ todo"]
    show ?thesis by auto
  qed
qed

lemma reachable_from_sound:
  "set (reachable_from reverse todo seen) \<subseteq> set seen \<union> (affects reverse)\<^sup>* `` set todo"
proof (induction reverse todo seen rule: reachable_from.induct)
  case (1 reverse seen)
  show ?case by simp
next
  case (2 reverse f todo seen)
  show ?case
  proof (cases "f \<in> set seen")
    case True
    with 2 show ?thesis by auto
  next
    case False
    have step: "(affects reverse)\<^sup>* `` set (affected_by reverse f @ todo)
        \<subseteq> (affects reverse)\<^sup>* `` set (f # todo)"
    proof
      fix x assume "x \<in> (affects reverse)\<^sup>* `` set (affected_by reverse f @ todo)"
      then obtain y where y: "y \<in> set (affected_by reverse f) \<or> y \<in> set todo"
        "(y, x) \<in> (affects reverse)\<^sup>*" by auto
      from y(1) show "x \<in> (affects reverse)\<^sup>* `` set (f # todo)"
      proof
        assume "y \<in> set (affected_by reverse f)"
        then have "(f, y) \<in> affects reverse" by (simp add: affects_def)
        from this y(2) have "(f, x) \<in> (affects reverse)\<^sup>*"
          by (rule converse_rtrancl_into_rtrancl)
        then show ?thesis by auto
      next
        assume "y \<in> set todo"
        with y(2) show ?thesis by auto
      qed
    qed
    have self: "f \<in> (affects reverse)\<^sup>* `` set (f # todo)" by auto
    from False have "reachable_from reverse (f # todo) seen =
        reachable_from reverse (affected_by reverse f @ todo) (seen @ [f])" by simp
    with False "2.IH"(2) have "set (reachable_from reverse (f # todo) seen)
        \<subseteq> set (seen @ [f]) \<union> (affects reverse)\<^sup>* `` set (affected_by reverse f @ todo)"
      by simp
    also have "\<dots> \<subseteq> set seen \<union> (affects reverse)\<^sup>* `` set (f # todo)"
      using step self by (simp only: set_append) auto
    finally show ?thesis .
  qed
qed

lemma reachable_from_closed:
  "\<forall>x\<in>set seen. set (affected_by reverse x) \<subseteq> set seen \<union> set todo \<Longrightarrow>
   \<forall>x\<in>set (reachable_from reverse todo seen).
      set (affected_by reverse x) \<subseteq> set (reachable_from reverse todo seen)"
proof (induction reverse todo seen rule: reachable_from.induct)
  case (1 reverse seen)
  then show ?case by simp
next
  case (2 reverse f todo seen)
  show ?case
  proof (cases "f \<in> set seen")
    case True
    with 2 show ?thesis by auto
  next
    case False
    have "\<forall>x\<in>set (seen @ [f]).
        set (affected_by reverse x) \<subseteq> set (seen @ [f]) \<union> set (affected_by reverse f @ todo)"
      using "2.prems" by auto
    with False 2 show ?thesis by simp
  qed
qed

lemma reachable_from_complete:
  "(affects reverse)\<^sup>* `` set todo \<subseteq> set (reachable_from reverse todo [])"
proof
  fix x assume "x \<in> (affects reverse)\<^sup>* `` set todo"
  then obtain s where s: "s \<in> set todo" "(s, x) \<in> (affects reverse)\<^sup>*" by auto
  from s(2) show "x \<in> set (reachable_from reverse todo [])"
  proof (induction rule: rtrancl_induct)
    case base
    with s(1) reachable_from_todo[of todo reverse "[]"] show ?case by auto
  next
    case (step y z)
    from step(2) have "z \<in> set (affected_by reverse y)" by (simp add: affects_def)
    with step(3) reachable_from_closed[of "[]" reverse todo] show ?case by auto
  qed
qed

lemma set_reachable_from:
  "set (reachable_from reverse todo []) = (affects reverse)\<^sup>* `` set todo"
  using reachable_from_sound[of reverse todo "[]"] reachable_from_complete[of reverse todo]
  by auto

lemma map_of_filter_keys:
  "map_of (filter (\<lambda>entry. Q (fst entry)) xs) k = (if Q k then map_of xs k else None)"
  by (induction xs) auto

lemma set_stale_files:
  "set (stale_files cache timestamps lastBuild) =
     {f \<in> fst ` set cache. \<exists>t. timestamps f = Some t \<and> lastBuild < t}"
  by (auto simp: stale_files_def split: option.splits)

text \<open>
  Claim C2, on the model of \<open>invalidate\<close> written from the spec. The stale files are
  the cached files whose reported timestamp exceeds the last build timestamp; the
  changed files returned are exactly the files reachable from a stale file through the
  reverse dependency map, the stale files themselves included; the entry of every
  changed file is gone from the cache, and every other entry is as it was.
\<close>

theorem SourceFileCache_invalidate_evicts_exactly:
  assumes "SourceFileCache_invalidate cache timestamps lastBuild reverse =
             (cache', evicted)"
  shows "set (stale_files cache timestamps lastBuild) =
           {f \<in> fst ` set cache. \<exists>t. timestamps f = Some t \<and> lastBuild < t} \<and>
         set evicted =
           (affects reverse)\<^sup>* `` set (stale_files cache timestamps lastBuild) \<and>
         (\<forall>f. map_of cache' f = (if f \<in> set evicted then None else map_of cache f))"
proof -
  from assms have c: "evicted =
      reachable_from reverse (stale_files cache timestamps lastBuild) []"
    and c': "cache' = filter (\<lambda>entry. fst entry \<notin> set evicted) cache"
    by (auto simp: SourceFileCache_invalidate_def Let_def)
  from c have "set evicted =
      (affects reverse)\<^sup>* `` set (stale_files cache timestamps lastBuild)"
    by (simp add: set_reachable_from)
  moreover have "\<forall>f. map_of cache' f = (if f \<in> set evicted then None else map_of cache f)"
    unfolding c' by (simp add: map_of_filter_keys[of "\<lambda>k. k \<notin> set evicted"])
  ultimately show ?thesis by (simp add: set_stale_files)
qed

lemma example_invalidate:
  "SourceFileCache_invalidate example_cache example_timestamps 10 example_reverse =
     ([(''/app/main.ts'', ''parsed main.ts'')], [''/app/a.css'', ''/app/a.component.ts''])"
  by (simp add: SourceFileCache_invalidate_def stale_files_def example_cache_def
        example_timestamps_def example_reverse_def affected_by_def Let_def)

theorem SourceFileCache_invalidate_evicts_exactly_witness:
  "SourceFileCache_invalidate example_cache example_timestamps 10 example_reverse =
     ([(''/app/main.ts'', ''parsed main.ts'')], [''/app/a.css'', ''/app/a.component.ts'']) \<and>
   set (stale_files example_cache example_timestamps 10) = {''/app/a.css''} \<and>
   (affects example_reverse)\<^sup>* `` set (stale_files example_cache example_timestamps 10) =
     {''/app/a.css'', ''/app/a.component.ts''} \<and>
   map_of example_cache ''/app/main.ts'' = Some ''parsed main.ts''"
proof -
  note t = SourceFileCache_invalidate_evicts_exactly[OF example_invalidate]
  from t have 1: "(affects example_reverse)\<^sup>* ``
      set (stale_files example_cache example_timestamps 10) =
     {''/app/a.css'', ''/app/a.component.ts''}" by auto
  from t have "\<forall>f. map_of [(''/app/main.ts'', ''parsed main.ts'')] f =
      (if f \<in> set [''/app/a.css'', ''/app/a.component.ts''] then None
       else map_of example_cache f)" by blast
  from this[rule_format, of "''/app/main.ts''"]
  have 2: "map_of example_cache ''/app/main.ts'' = Some ''parsed main.ts''" by simp
  have 3: "set (stale_files example_cache example_timestamps 10) = {''/app/a.css''}"
    by (simp add: stale_files_def example_cache_def example_timestamps_def)
  from example_invalidate 1 2 3 show ?thesis by simp
qed

section \<open>Unused files\<close>

lemma set_fold_removeAll: "set (fold removeAll ds xs) = set xs - set ds"
  by (induction ds arbitrary: xs) auto

lemma distinct_fold_removeAll: "distinct xs \<Longrightarrow> distinct (fold removeAll ds xs)"
  by (induction ds arbitrary: xs) (auto simp: distinct_removeAll)



lemma set_delete_dependencies:
  "set (delete_dependencies program m xs) = set xs - bundled_dependencies program [m]"
  by (auto simp: delete_dependencies_def bundled_dependencies_def set_fold_removeAll
           split: option.splits)

lemma bundled_dependencies_Cons:
  "bundled_dependencies program (m # ms) =
     bundled_dependencies program [m] \<union> bundled_dependencies program ms"
  by (auto simp: bundled_dependencies_def)

lemma set_fold_delete_dependencies:
  "set (fold (delete_dependencies program) ms xs) = set xs - bundled_dependencies program ms"
proof (induction ms arbitrary: xs)
  case Nil
  show ?case by (simp add: bundled_dependencies_def)
next
  case (Cons m ms)
  show ?case
    by (simp add: Cons.IH set_delete_dependencies)
       (auto simp: bundled_dependencies_Cons[of program m ms])
qed

lemma distinct_delete_dependencies:
  "distinct xs \<Longrightarrow> distinct (delete_dependencies program m xs)"
  by (auto simp: delete_dependencies_def distinct_fold_removeAll split: option.splits)

lemma distinct_fold_delete_dependencies:
  "distinct xs \<Longrightarrow> distinct (fold (delete_dependencies program) ms xs)"
  by (induction ms arbitrary: xs) (auto simp: distinct_delete_dependencies)

lemma distinct_new_Set: "distinct (new_Set xs)"
  by (simp add: new_Set_def distinct_fold_set_add)

lemma set_current_unused:
  "set (current_unused program files modules) =
     {fileName sf | sf. sf \<in> set files \<and> \<not> isDeclarationFile sf}
       - bundled_dependencies program modules"
  by (auto simp: current_unused_def set_fold_delete_dependencies set_new_Set)

lemma distinct_current_unused: "distinct (current_unused program files modules)"
  by (simp add: current_unused_def distinct_fold_delete_dependencies distinct_new_Set)

lemma fold_warn_unused:
  "fold (warn_unused prev) us c =
     c\<lparr>warnings := warnings c @ map unused_message (filter (\<lambda>u. \<not> was_unused prev u) us)\<rparr>"
  by (induction us arbitrary: c) (auto simp: warn_unused_def addWarning_def)

lemma inj_unused_message: "inj unused_message"
  by (auto simp: inj_def unused_message_def)

lemma analyze_unused_failed:
  "errors c \<noteq> [] \<Longrightarrow> analyze_unused program files modules (c, prev) = (c, prev)"
  by (simp add: analyze_unused_def)

lemma analyze_unused_clean:
  "errors c = [] \<Longrightarrow>
   analyze_unused program files modules (c, prev) =
     (c\<lparr>warnings := warnings c @ map unused_message
          (filter (\<lambda>u. \<not> was_unused prev u) (current_unused program files modules))\<rparr>,
      Some (current_unused program files modules))"
  by (simp add: analyze_unused_def fold_warn_unused Let_def)

lemma added_warnings_clean:
  "errors c = [] \<Longrightarrow>
   added_warnings c (fst (analyze_unused program files modules (c, prev))) =
     map unused_message (filter (\<lambda>u. \<not> was_unused prev u) (current_unused program files modules))"
  by (simp add: analyze_unused_clean added_warnings_def)

lemma added_warnings_failed:
  "errors c \<noteq> [] \<Longrightarrow>
   added_warnings c (fst (analyze_unused program files modules (c, prev))) = []"
  by (simp add: analyze_unused_failed added_warnings_def)

text \<open>
  Claim C6, as the code has it. The hook never touches the errors of the compilation,
  and the warnings it adds are distinct. When the compilation has errors it adds no
  warning and leaves \<open>previousUnused\<close> as it is. When the compilation has no errors it
  adds one warning for each unused file (a program file that is not a declaration file
  and not a dependency of a bundled module) that was not unused in the cycle that
  \<open>previousUnused\<close> stems from, and remembers the unused files of this cycle; so no
  file warned about in this cycle is warned about in the next one.
\<close>

theorem analyze_unused_warnings:
  assumes "analyze_unused program files modules (c, previousUnused) = (c', previousUnused')"
  shows "errors c' = errors c \<and>
         warnings c' = warnings c @ added_warnings c c' \<and>
         distinct (added_warnings c c') \<and>
         (errors c \<noteq> [] \<longrightarrow> c' = c \<and> previousUnused' = previousUnused) \<and>
         (errors c = [] \<longrightarrow>
            previousUnused' = Some (current_unused program files modules) \<and>
            added_warnings c c' =
              map unused_message
                (filter (\<lambda>u. \<not> was_unused previousUnused u)
                        (current_unused program files modules))) \<and>
         set (current_unused program files modules) =
           {fileName sf | sf. sf \<in> set files \<and> \<not> isDeclarationFile sf}
             - bundled_dependencies program modules \<and>
         set (added_warnings c2
                (fst (analyze_unused program2 files2 modules2 (c2, previousUnused'))))
           \<inter> set (added_warnings c c') = {}"
proof (cases "errors c = []")
  case False
  with assms have same: "c' = c" "previousUnused' = previousUnused"
    by (simp_all add: analyze_unused_failed)
  then have "added_warnings c c' = []" by (simp add: added_warnings_def)
  with same False show ?thesis by (simp add: set_current_unused)
next
  case True
  let ?cu = "current_unused program files modules"
  let ?new = "map unused_message (filter (\<lambda>u. \<not> was_unused previousUnused u) ?cu)"
  from assms True have c': "c' = c\<lparr>warnings := warnings c @ ?new\<rparr>"
    and prev': "previousUnused' = Some ?cu"
    by (simp_all add: analyze_unused_clean)
  have added: "added_warnings c c' = ?new" by (simp add: c' added_warnings_def)
  have d: "distinct ?new"
    using inj_unused_message
    by (auto simp: distinct_map distinct_current_unused inj_on_def inj_def)
  have disjoint: "set (added_warnings c2
                (fst (analyze_unused program2 files2 modules2 (c2, previousUnused'))))
           \<inter> set ?new = {}"
  proof (cases "errors c2 = []")
    case False
    then show ?thesis by (simp add: added_warnings_failed)
  next
    case True
    then show ?thesis
      using inj_unused_message
      by (auto simp: added_warnings_clean prev' was_unused_def inj_def)
  qed
  from True c' prev' added d disjoint show ?thesis
    by (simp add: set_current_unused)
qed

lemmas example_program_defs = example_program_def example_main_def example_unused_def
  example_declarations_def example_modules_def allProgramFiles_def

lemmas unused_defs = analyze_unused_def current_unused_def delete_dependencies_def
  warn_unused_def was_unused_def addWarning_def added_warnings_def new_Set_def set_add_def
  Let_def

lemma example_current_unused:
  "current_unused example_program (allProgramFiles example_program None) example_modules =
     [''/app/unused.ts'']"
  by (simp add: example_program_defs unused_defs)

lemma example_cycle1_eval:
  "example_cycle1 =
     (example_parent\<lparr>warnings := [unused_message ''/app/unused.ts'']\<rparr>,
      Some [''/app/unused.ts''])"
  unfolding example_cycle1_def
  by (simp add: analyze_unused_clean example_current_unused example_parent_def was_unused_def)

lemma example_cycle2_eval: "example_cycle2 = (example_parent, Some [''/app/unused.ts''])"
  unfolding example_cycle2_def example_cycle1_eval
  by (simp add: analyze_unused_clean example_current_unused example_parent_def was_unused_def)

lemma example_cycle3_eval: "example_cycle3 = (example_parent, Some [''/app/unused.ts''])"
  unfolding example_cycle3_def example_cycle2_eval
  by (simp add: analyze_unused_clean example_current_unused example_parent_def was_unused_def)

theorem analyze_unused_warnings_witness:
  "analyze_unused example_program (allProgramFiles example_program None) example_modules
     (example_parent, None) = example_cycle1 \<and>
   errors (fst example_cycle1) = [] \<and>
   added_warnings example_parent (fst example_cycle1) = [unused_message ''/app/unused.ts''] \<and>
   snd example_cycle1 = Some [''/app/unused.ts''] \<and>
   added_warnings example_parent (fst example_cycle2) = []"
proof -
  have run: "analyze_unused example_program (allProgramFiles example_program None)
      example_modules (example_parent, None) = (fst example_cycle1, snd example_cycle1)"
    by (simp add: example_cycle1_def)
  have e: "errors example_parent = []" by (simp add: example_parent_def)
  note t = analyze_unused_warnings[OF run, of example_parent example_program
      "allProgramFiles example_program None" example_modules]
  from t e have 1: "errors (fst example_cycle1) = []" by simp
  from t e have 2: "snd example_cycle1 =
      Some (current_unused example_program (allProgramFiles example_program None) example_modules)"
    and 3: "added_warnings example_parent (fst example_cycle1) =
      map unused_message (filter (\<lambda>u. \<not> was_unused None u)
        (current_unused example_program (allProgramFiles example_program None) example_modules))"
    by simp_all
  from t have "set (added_warnings example_parent (fst example_cycle2))
      \<inter> set (added_warnings example_parent (fst example_cycle1)) = {}"
    by (simp add: example_cycle2_def)
  moreover have "set (added_warnings example_parent (fst example_cycle2))
      \<subseteq> {unused_message ''/app/unused.ts''}"
    by (simp add: example_cycle2_eval added_warnings_def)
  ultimately have 4: "added_warnings example_parent (fst example_cycle2) = []"
    using 3
    by (cases "added_warnings example_parent (fst example_cycle2)")
       (auto simp: example_current_unused was_unused_def)
  from 1 2 3 4 show ?thesis
    by (simp add: example_cycle1_def example_current_unused was_unused_def)
qed

text \<open>
  A file that stays unused is warned about in the first of three cycles only: in the
  third cycle it is unused and was not warned about in the second, and no warning is
  added. And a build whose compilation has an error adds no warning for its unused file.
\<close>

theorem analyze_unused_counterexample:
  "current_unused example_program (allProgramFiles example_program None) example_modules =
     [''/app/unused.ts''] \<and>
   errors example_parent = [] \<and>
   added_warnings example_parent (fst example_cycle1) = [unused_message ''/app/unused.ts''] \<and>
   added_warnings example_parent (fst example_cycle2) = [] \<and>
   added_warnings example_parent (fst example_cycle3) = [] \<and>
   errors example_failed = [''TS2304''] \<and>
   added_warnings example_failed (fst example_failed_cycle) = []"
  by (simp add: example_current_unused example_cycle1_eval example_cycle2_eval
        example_cycle3_eval added_warnings_def example_failed_cycle_def example_failed_def
        analyze_unused_failed example_parent_def)

section \<open>The file emitter\<close>

text \<open>
  Claim C7. A call of the emitter for a path that the program has no source file for
  resolves with \<open>undefined\<close>, leaves the state alone and calls \<open>program.emit\<close> not at
  all. A call for a path of a source file calls \<open>program.emit\<close> once, with that source
  file as its target and never for the whole program, and resolves with what that call
  has written.
\<close>

theorem createFileEmitter_emits_requested_file_only:
  "(getSourceFile program requested = None \<longrightarrow>
      createFileEmitter externalizePath program getExtraDependencies onAfterEmit requested s =
        (None, s, [])) \<and>
   (getSourceFile program requested = Some sourceFile \<longrightarrow>
      createFileEmitter externalizePath program getExtraDependencies onAfterEmit requested s =
        (Some \<lparr>content = fst (fold write_file (emit program (Some sourceFile)) (None, None)),
               map_data = snd (fold write_file (emit program (Some sourceFile)) (None, None)),
               dependencies =
                 map externalizePath
                   (getAllDependencies program sourceFile @ getExtraDependencies sourceFile)\<rparr>,
         (case onAfterEmit of None \<Rightarrow> s | Some after \<Rightarrow> after sourceFile s),
         [Some sourceFile]))"
  by (simp add: createFileEmitter_def split: prod.splits)

theorem createFileEmitter_emits_requested_file_only_witness:
  "getSourceFile example_program ''/app/missing.ts'' = None \<and>
   createFileEmitter (\<lambda>p. p) example_program (\<lambda>sf. [''/app/a.css''])
       (Some (\<lambda>sf required. removeAll (fileName sf) required))
       ''/app/missing.ts'' [''/app/main.ts'', ''/app/unused.ts''] =
     (None, [''/app/main.ts'', ''/app/unused.ts''], []) \<and>
   getSourceFile example_program ''/app/main.ts'' = Some example_main \<and>
   createFileEmitter (\<lambda>p. p) example_program (\<lambda>sf. [''/app/a.css''])
       (Some (\<lambda>sf required. removeAll (fileName sf) required))
       ''/app/main.ts'' [''/app/main.ts'', ''/app/unused.ts''] =
     (Some \<lparr>content = Some ''js of /app/main.ts'', map_data = Some ''map of /app/main.ts'',
            dependencies = [''/app/main.ts'', ''/app/lib.d.ts'', ''/app/a.css'']\<rparr>,
      [''/app/unused.ts''], [Some example_main])"
proof -
  have 1: "getSourceFile example_program ''/app/missing.ts'' = None"
    and 2: "getSourceFile example_program ''/app/main.ts'' = Some example_main"
    by (simp_all add: example_program_def)
  have w: "fold write_file (emit example_program (Some example_main)) (None, None) =
      (Some ''js of /app/main.ts'', Some ''map of /app/main.ts'')"
    by (simp add: example_program_def example_main_def write_file_def endsWith_def)
  have d: "getAllDependencies example_program example_main = [''/app/main.ts'', ''/app/lib.d.ts'']"
    "fileName example_main = ''/app/main.ts''"
    by (simp_all add: example_program_def example_main_def)
  note a = createFileEmitter_emits_requested_file_only[of example_program "''/app/missing.ts''"
      "\<lambda>p. p" "\<lambda>sf. [''/app/a.css'']" "Some (\<lambda>sf required. removeAll (fileName sf) required)"
      "[''/app/main.ts'', ''/app/unused.ts'']"]
  note b = createFileEmitter_emits_requested_file_only[of example_program "''/app/main.ts''"
      "\<lambda>p. p" "\<lambda>sf. [''/app/a.css'']" "Some (\<lambda>sf required. removeAll (fileName sf) required)"
      "[''/app/main.ts'', ''/app/unused.ts'']" example_main]
  from a 1 b 2 w d show ?thesis by simp
qed

section \<open>State kept between compilations\<close>



















end
